theory Spec2Isabelle
  imports Main "HOL-Library.Sublist"
begin

section \<open>The authentication context of \<open>src/contexts/AuthContext.jsx\<close>\<close>

text \<open>
  The component keeps a session in \<open>localStorage\<close> (keys \<open>token\<close>, \<open>userRole\<close>, \<open>userId\<close>,
  \<open>email\<close>), an audit trail under the key \<open>userLogs\<close>, and the React state \<open>user\<close> and
  \<open>loading\<close>. Every JavaScript function is embedded as a function from the state before the
  call to either the exception it raises (\<open>Inl\<close>) or the state after it (\<open>Inr\<close>); each
  \<open>try\<close>/\<open>catch\<close> of the source is a pair of definitions, the body and the function that
  handles what the body raises. Calls to \<open>console.log\<close> and \<open>console.error\<close> are left out.
\<close>

subsection \<open>Values\<close>

datatype error = SyntaxError | TypeError

text \<open>
  \<open>new Date().toISOString()\<close> yields a 24-character text, so a time written by the code is
  never the empty string and is truthy wherever it is tested; the model keeps the instant
  in milliseconds. A time field of an entry is \<open>null\<close> (\<open>None\<close>) or such a time.
\<close>

type_synonym timestamp = nat

record entry =
  log_id :: string
  userId :: string
  username :: string
  role :: string
  action :: string
  loginTime :: "timestamp option"
  logoutTime :: "timestamp option"
  ipAddress :: string
  tokenName :: string

text \<open>
  The string stored under \<open>userLogs\<close>: the empty string, a text that is not JSON, the JSON
  text of a value that is not an array, or the JSON text of an array of entries (what
  \<open>JSON.stringify\<close> writes at line 143).
\<close>

datatype json_text = Empty_text | Malformed | Not_array | Array_text "entry list"

record localStorage =
  items :: "string \<rightharpoonup> string"
  userLogs :: "json_text option"

record user_data =
  user_email :: string
  user_userId :: "string option"
  user_role :: "string option"

record state =
  storage :: localStorage
  user :: "user_data option"
  loading :: bool

text \<open>
  What one call reads from the clock and from the random generator, in the order of the
  source: \<open>generateMockToken()\<close> and \<open>Date.now()\<close> of \<open>login\<close> (lines 235-238), then in
  \<open>logUserActivity\<close> the \<open>Date.now()\<close> and the random suffix of the id (line 108), the two
  \<open>new Date()\<close> of lines 113 and 114, \<open>Math.floor(Math.random() * 254)\<close> of the mock address
  (line 86) and the \<open>new Date()\<close> of the in-place update (line 128).
\<close>

record env =
  mockToken :: string
  nowMs :: nat
  idNow :: nat
  idRandom :: string
  loginISO :: timestamp
  logoutISO :: timestamp
  ipRandom :: nat
  updateISO :: timestamp

subsection \<open>Strings and arrays of JavaScript\<close>

text \<open>Number to decimal text, as \<open>"user-" + Date.now()\<close> and \<open>toString()\<close> print it.\<close>

fun string_of_nat :: "nat \<Rightarrow> string" where
  "string_of_nat n =
     (if n < 10 then [''0123456789'' ! n]
      else string_of_nat (n div 10) @ [''0123456789'' ! (n mod 10)])"

declare string_of_nat.simps [simp del]

text \<open>\<open>s.includes(sub)\<close>: some suffix of \<open>s\<close> starts with \<open>sub\<close>.\<close>

fun includes_str :: "string \<Rightarrow> string \<Rightarrow> bool" where
  "includes_str [] sub = (sub = [])"
| "includes_str (c # cs) sub = (prefix sub (c # cs) \<or> includes_str cs sub)"

text \<open>\<open>s.substring(a, b)\<close> on indices that are natural numbers (the two are swapped when
  \<open>a > b\<close>).\<close>

definition substring :: "nat \<Rightarrow> nat \<Rightarrow> string \<Rightarrow> string" where
  "substring a b s = take (max a b - min a b) (drop (min a b) s)"

text \<open>A value tested by \<open>if\<close>, \<open>&&\<close> or \<open>||\<close>: \<open>null\<close> and the empty string are falsy.\<close>

definition truthy :: "string option \<Rightarrow> bool" where
  "truthy v = (case v of None \<Rightarrow> False | Some s \<Rightarrow> s \<noteq> [])"

text \<open>\<open>xs.findIndex(p)\<close>: the first index whose element satisfies \<open>p\<close>, or \<open>-1\<close>.\<close>

fun findIndex :: "('a \<Rightarrow> bool) \<Rightarrow> 'a list \<Rightarrow> int" where
  "findIndex p [] = - 1"
| "findIndex p (x # xs) =
     (if p x then 0 else (let i = findIndex p xs in if i = - 1 then - 1 else i + 1))"

text \<open>\<open>xs.slice(start)\<close>: a negative \<open>start\<close> counts from the end.\<close>

definition slice :: "int \<Rightarrow> 'a list \<Rightarrow> 'a list" where
  "slice start xs =
     (let n = int (length xs);
          k = (if start < 0 then max (n + start) 0 else min start n)
      in drop (nat k) xs)"

subsection \<open>The store\<close>

definition getItem :: "string \<Rightarrow> localStorage \<Rightarrow> string option" where
  "getItem k ls = items ls k"

definition setItem :: "string \<Rightarrow> string \<Rightarrow> localStorage \<Rightarrow> localStorage" where
  "setItem k v ls = ls\<lparr>items := (items ls)(k \<mapsto> v)\<rparr>"

definition removeItem :: "string \<Rightarrow> localStorage \<Rightarrow> localStorage" where
  "removeItem k ls = ls\<lparr>items := (items ls)(k := None)\<rparr>"

text \<open>
  \<open>JSON.parse(localStorage.getItem("userLogs") || "[]")\<close> followed by the first method call
  on the parsed value (\<open>findIndex\<close> at line 121 or \<open>push\<close> at lines 132 and 136): a text that
  is not JSON raises \<open>SyntaxError\<close> in the parser, a value that is not an array raises
  \<open>TypeError\<close> at the method call. The missing key and the empty string are falsy and
  stand for \<open>"[]"\<close>.
\<close>

definition JSON_parse :: "json_text \<Rightarrow> error + entry list" where
  "JSON_parse t =
     (case t of
        Empty_text \<Rightarrow> Inl SyntaxError
      | Malformed \<Rightarrow> Inl SyntaxError
      | Not_array \<Rightarrow> Inl TypeError
      | Array_text es \<Rightarrow> Inr es)"

definition JSON_stringify :: "entry list \<Rightarrow> json_text" where
  "JSON_stringify es = Array_text es"

definition existingLogs :: "localStorage \<Rightarrow> error + entry list" where
  "existingLogs ls =
     JSON_parse (case userLogs ls of
                   None \<Rightarrow> Array_text []
                 | Some t \<Rightarrow> if t = Empty_text then Array_text [] else t)"

subsection \<open>The activity log\<close>

definition getMockIpAddress :: "env \<Rightarrow> string" where
  "getMockIpAddress e = ''192.168.1.'' @ string_of_nat (ipRandom e + 1)"

definition newLog ::
  "env \<Rightarrow> string \<Rightarrow> string \<Rightarrow> string \<Rightarrow> string \<Rightarrow> string option \<Rightarrow> entry" where
  "newLog e uid uname rl act tok =
     \<lparr> log_id = string_of_nat (idNow e) @ idRandom e,
       userId = uid,
       username = uname,
       role = rl,
       action = act,
       loginTime = (if act = ''login'' then Some (loginISO e) else None),
       logoutTime = (if act = ''logout'' then Some (logoutISO e) else None),
       ipAddress = getMockIpAddress e,
       tokenName = (if truthy tok then the tok else ''N/A'') \<rparr>"

text \<open>The predicate of line 123: an open login entry of the user.\<close>

definition openLogin :: "string \<Rightarrow> entry \<Rightarrow> bool" where
  "openLogin uid log = (userId log = uid \<and> action log = ''login'' \<and> logoutTime log = None)"

text \<open>Lines 119-137: the array after the update in place or the \<open>push\<close>.\<close>

definition updatedLogs ::
  "env \<Rightarrow> string \<Rightarrow> string \<Rightarrow> string \<Rightarrow> string \<Rightarrow> string option \<Rightarrow> entry list \<Rightarrow> entry list"
  where
  "updatedLogs e uid uname rl act tok logs =
     (if act = ''logout'' then
        (let loginLogIndex = findIndex (openLogin uid) logs in
         if loginLogIndex \<noteq> - 1 then
           logs[nat loginLogIndex :=
                  (logs ! nat loginLogIndex)\<lparr>logoutTime := Some (updateISO e),
                                              action := ''logout''\<rparr>]
         else logs @ [newLog e uid uname rl act tok])
      else logs @ [newLog e uid uname rl act tok])"

text \<open>The body of the \<open>try\<close> of \<open>logUserActivity\<close> (lines 100-145). The store is written
  once, by the last statement that can raise, so an exception leaves it as it was.\<close>

definition logUserActivity_try ::
  "env \<Rightarrow> string \<Rightarrow> string \<Rightarrow> string \<Rightarrow> string \<Rightarrow> string option \<Rightarrow> localStorage
     \<Rightarrow> error + localStorage" where
  "logUserActivity_try e uid uname rl act tok ls =
     (case existingLogs ls of
        Inl err \<Rightarrow> Inl err
      | Inr logs \<Rightarrow>
          (let recentLogs = slice (- 100) (updatedLogs e uid uname rl act tok logs)
           in Inr (ls\<lparr>userLogs := Some (JSON_stringify recentLogs)\<rparr>)))"

text \<open>\<open>logUserActivity\<close>: the \<open>catch\<close> of line 146 reports the error and returns.\<close>

definition logUserActivity ::
  "env \<Rightarrow> string \<Rightarrow> string \<Rightarrow> string \<Rightarrow> string \<Rightarrow> string option \<Rightarrow> localStorage
     \<Rightarrow> error + localStorage" where
  "logUserActivity e uid uname rl act tok ls =
     (case logUserActivity_try e uid uname rl act tok ls of
        Inl err \<Rightarrow> Inr ls
      | Inr ls' \<Rightarrow> Inr ls')"

text \<open>A caller's sequence of calls of \<open>logUserActivity\<close>, each with its own readings of the
  clock and the random generator.\<close>

record call =
  call_env :: env
  call_userId :: string
  call_username :: string
  call_role :: string
  call_action :: string
  call_tokenName :: "string option"

fun record_all :: "localStorage \<Rightarrow> call list \<Rightarrow> error + localStorage" where
  "record_all ls [] = Inr ls"
| "record_all ls (c # cs) =
     (case logUserActivity (call_env c) (call_userId c) (call_username c) (call_role c)
             (call_action c) (call_tokenName c) ls of
        Inl err \<Rightarrow> Inl err
      | Inr ls' \<Rightarrow> record_all ls' cs)"

subsection \<open>Logout, the check at mount, login, roles\<close>

text \<open>Lines 170-173, and again 182-185.\<close>

definition clearAuth :: "localStorage \<Rightarrow> localStorage" where
  "clearAuth ls =
     removeItem ''email'' (removeItem ''userId'' (removeItem ''userRole''
       (removeItem ''token'' ls)))"

text \<open>The body of the \<open>try\<close> of \<open>handleLogout\<close> (lines 158-178). Under the test of line 165
  the three values are strings, read with \<open>the\<close>.\<close>

definition handleLogout_try :: "env \<Rightarrow> state \<Rightarrow> error + state" where
  "handleLogout_try e s =
     (let userId = getItem ''userId'' (storage s);
          email = getItem ''email'' (storage s);
          role = getItem ''userRole'' (storage s)
      in case (if truthy userId \<and> truthy email \<and> truthy role
               then logUserActivity e (the userId) (the email) (the role) ''logout'' None
                      (storage s)
               else Inr (storage s)) of
           Inl err \<Rightarrow> Inl err
         | Inr ls \<Rightarrow> Inr (s\<lparr>storage := clearAuth ls, user := None\<rparr>))"

text \<open>\<open>handleLogout\<close>: the \<open>catch\<close> of line 179 clears the four keys and the user again.\<close>

definition handleLogout :: "env \<Rightarrow> state \<Rightarrow> error + state" where
  "handleLogout e s =
     (case handleLogout_try e s of
        Inl err \<Rightarrow> Inr (s\<lparr>storage := clearAuth (storage s), user := None\<rparr>)
      | Inr s' \<Rightarrow> Inr s')"

text \<open>The initial state of the component (lines 48-55).\<close>

definition initialState :: "localStorage \<Rightarrow> state" where
  "initialState ls =
     (let token = getItem ''token'' ls; email = getItem ''email'' ls
      in \<lparr> storage = ls,
           user = (if truthy token \<and> truthy email
                   then Some \<lparr>user_email = the email, user_userId = None, user_role = None\<rparr>
                   else None),
           loading = True \<rparr>)"

text \<open>\<open>checkAuth\<close> (lines 195-218): the body of the \<open>try\<close>, the \<open>catch\<close>, and what follows the
  body. \<open>checkAuth_finish e s r\<close> is the \<open>catch\<close> and the \<open>finally\<close> applied to the outcome \<open>r\<close> of
  the body: when the body raised (\<open>Inl\<close>) in the state \<open>s\<close>, the handler of line 212 calls
  \<open>handleLogout\<close>; the \<open>finally\<close> of line 215 sets \<open>loading\<close> to \<open>false\<close>. No statement of the
  body changes the state before one that can raise, so \<open>checkAuth\<close> hands the handler the
  state of the call.\<close>

definition checkAuth_try :: "env \<Rightarrow> state \<Rightarrow> error + state" where
  "checkAuth_try e s =
     (let token = getItem ''token'' (storage s)
      in if truthy token then
           (let email = getItem ''email'' (storage s)
            in if truthy email
               then Inr (s\<lparr>user := Some \<lparr>user_email = the email, user_userId = None,
                                        user_role = None\<rparr>\<rparr>)
               else handleLogout e s)
         else Inr s)"

definition checkAuth_catch :: "env \<Rightarrow> error \<Rightarrow> state \<Rightarrow> error + state" where
  "checkAuth_catch e err s = handleLogout e s"

definition checkAuth_finish :: "env \<Rightarrow> state \<Rightarrow> error + state \<Rightarrow> error + state" where
  "checkAuth_finish e s r =
     (case (case r of
              Inl err \<Rightarrow> checkAuth_catch e err s
            | Inr s' \<Rightarrow> Inr s') of
        Inl err \<Rightarrow> Inl err
      | Inr s' \<Rightarrow> Inr (s'\<lparr>loading := False\<rparr>))"

definition checkAuth :: "env \<Rightarrow> state \<Rightarrow> error + state" where
  "checkAuth e s = checkAuth_finish e s (checkAuth_try e s)"

text \<open>\<open>login\<close> (lines 229-264): the body of the \<open>try\<close>; the \<open>catch\<close> throws the error again.
  The password is a parameter that the body never reads.\<close>

definition login_try :: "env \<Rightarrow> string \<Rightarrow> string \<Rightarrow> state \<Rightarrow> error + (user_data \<times> state)" where
  "login_try e email password s =
     (let token = mockToken e;
          uid = (if includes_str email ''admin''
                 then ''admin-'' @ string_of_nat (nowMs e)
                 else ''user-'' @ string_of_nat (nowMs e));
          rl = (if includes_str email ''admin'' then ''admin'' else ''user'');
          ls = setItem ''email'' email (setItem ''userId'' uid (setItem ''userRole'' rl
                 (setItem ''token'' token (storage s))));
          u = \<lparr>user_email = email, user_userId = Some uid, user_role = Some rl\<rparr>
      in case logUserActivity e uid email rl ''login'' (Some (substring 0 20 token @ ''...'')) ls of
           Inl err \<Rightarrow> Inl err
         | Inr ls' \<Rightarrow> Inr (u, s\<lparr>storage := ls', user := Some u\<rparr>))"

definition login :: "env \<Rightarrow> string \<Rightarrow> string \<Rightarrow> state \<Rightarrow> error + (user_data \<times> state)" where
  "login e email password s =
     (case login_try e email password s of
        Inl err \<Rightarrow> Inl err
      | Inr r \<Rightarrow> Inr r)"

text \<open>\<open>hasRole\<close> (lines 323-326): \<open>===\<close> between the stored value (\<open>null\<close> when the key is
  missing) and the argument, which is \<open>null\<close> or a string.\<close>

definition hasRole :: "string option \<Rightarrow> state \<Rightarrow> bool" where
  "hasRole requiredRole s = (getItem ''userRole'' (storage s) = requiredRole)"

definition isAdmin :: "state \<Rightarrow> bool" where
  "isAdmin s = hasRole (Some ''admin'') s"

definition isAuthenticated :: "state \<Rightarrow> bool" where
  "isAuthenticated s = (user s \<noteq> None)"

subsection \<open>A sequence of calls, and sample data\<close>

text \<open>The entry that a call of a sequence builds at line 107.\<close>

definition entry_of_call :: "call \<Rightarrow> entry" where
  "entry_of_call c =
     newLog (call_env c) (call_userId c) (call_username c) (call_role c) (call_action c)
       (call_tokenName c)"

text \<open>Readings of the clock and the random generator, a store with no key, a login call
  for each of a family of distinct user ids, an open login entry and a store holding it.\<close>

definition env0 :: env where
  "env0 = \<lparr> mockToken = ''eyJhbGciOiJIUzI1NiIsInR5cCI6IkpXVCJ9.e30=.bW9jaw=='', nowMs = 1700000000000,
             idNow = 1700000000001, idRandom = ''k3j9x0q1z'', loginISO = 1700000000002,
             logoutISO = 1700000000003, ipRandom = 41, updateISO = 1700000000004 \<rparr>"

definition emptyStorage :: localStorage where
  "emptyStorage = \<lparr> items = Map.empty, userLogs = None \<rparr>"

definition loginCall :: "nat \<Rightarrow> call" where
  "loginCall i = \<lparr> call_env = env0, call_userId = replicate (Suc i) CHR ''u'',
                   call_username = ''a@x.com'', call_role = ''user'', call_action = ''login'',
                   call_tokenName = None \<rparr>"

definition openEntry :: entry where
  "openEntry = newLog env0 ''u1'' ''a@x.com'' ''user'' ''login'' None"

definition oneLoginStorage :: localStorage where
  "oneLoginStorage = \<lparr> items = Map.empty, userLogs = Some (Array_text [openEntry]) \<rparr>"

text \<open>A log of three open logins: one of \<open>u2\<close>, then two of \<open>u1\<close>.\<close>

definition otherEntry :: entry where
  "otherEntry = newLog env0 ''u2'' ''b@x.com'' ''user'' ''login'' None"

definition laterEntry :: entry where
  "laterEntry =
     newLog (env0\<lparr>idNow := 1700000000500, loginISO := 1700000000501\<rparr>)
       ''u1'' ''a@x.com'' ''user'' ''login'' None"

definition threeLoginStorage :: localStorage where
  "threeLoginStorage =
     \<lparr> items = Map.empty, userLogs = Some (Array_text [otherEntry, openEntry, laterEntry]) \<rparr>"

text \<open>A store holding a session of \<open>u1\<close> and one open login of \<open>u1\<close>, the same store with
  an unreadable log, and a store whose session lacks the email.\<close>

definition sessionStorage :: localStorage where
  "sessionStorage =
     \<lparr> items = [''token'' \<mapsto> ''t0k3n'', ''userRole'' \<mapsto> ''user'', ''userId'' \<mapsto> ''u1'',
                 ''email'' \<mapsto> ''a@x.com''],
       userLogs = Some (Array_text [openEntry]) \<rparr>"

definition corruptStorage :: localStorage where
  "corruptStorage = sessionStorage\<lparr>userLogs := Some Malformed\<rparr>"

definition tokenOnlyStorage :: localStorage where
  "tokenOnlyStorage =
     \<lparr> items = [''token'' \<mapsto> ''t0k3n'', ''userRole'' \<mapsto> ''user'', ''userId'' \<mapsto> ''u1''],
       userLogs = Some (Array_text [openEntry]) \<rparr>"

section \<open>Arrays: \<open>findIndex\<close> and \<open>slice\<close>\<close>

lemma findIndex_bounds: "- 1 \<le> findIndex p xs \<and> findIndex p xs < int (length xs)"
  by (induction xs) (auto simp: Let_def)

lemma findIndex_none: "findIndex p xs = - 1 \<longleftrightarrow> (\<forall>x \<in> set xs. \<not> p x)"
proof (induction xs)
  case Nil
  show ?case by simp
next
  case (Cons x xs)
  have "findIndex p xs \<noteq> - 2" using findIndex_bounds [of p xs] by arith
  with Cons show ?case by (auto simp: Let_def)
qed

lemma findIndex_first:
  "findIndex p xs \<noteq> - 1 \<Longrightarrow>
     nat (findIndex p xs) < length xs \<and> p (xs ! nat (findIndex p xs)) \<and>
     (\<forall>j < nat (findIndex p xs). \<not> p (xs ! j))"
proof (induction xs)
  case Nil
  then show ?case by simp
next
  case (Cons x xs)
  show ?case
  proof (cases "p x")
    case True
    then show ?thesis by simp
  next
    case False
    with Cons.prems have ne: "findIndex p xs \<noteq> - 1" by (auto simp: Let_def split: if_splits)
    have ge: "0 \<le> findIndex p xs" using findIndex_bounds [of p xs] ne by arith
    have eq: "nat (findIndex p (x # xs)) = Suc (nat (findIndex p xs))"
      using False ne ge by (simp add: Let_def nat_add_distrib)
    from Cons.IH [OF ne] False show ?thesis
      unfolding eq by (auto simp: less_Suc_eq_0_disj)
  qed
qed

lemma slice_last: "slice (- 100) xs = drop (length xs - 100) xs"
  by (simp add: slice_def Let_def max_def nat_diff_distrib')

lemma length_slice_last: "length (slice (- 100) xs) = min 100 (length xs)"
  by (simp add: slice_last)

lemma slice_last_append: "slice (- 100) (slice (- 100) xs @ ys) = slice (- 100) (xs @ ys)"
proof (cases "length xs \<le> 100")
  case True
  then show ?thesis by (simp add: slice_last)
next
  case False
  then have "length xs + length ys - (length xs - 100 + 100) + (length xs - 100)
               = length xs + length ys - 100" by arith
  then show ?thesis by (simp add: slice_last)
qed

section \<open>The activity log\<close>

lemma existingLogs_written [simp]:
  "existingLogs (ls\<lparr>userLogs := Some (Array_text es)\<rparr>) = Inr es"
  by (simp add: existingLogs_def JSON_parse_def)

lemma logUserActivity_readable:
  "existingLogs ls = Inr logs \<Longrightarrow>
     logUserActivity e uid un rl act tok ls =
       Inr (ls\<lparr>userLogs := Some (Array_text (slice (- 100) (updatedLogs e uid un rl act tok logs)))\<rparr>)"
  by (simp add: logUserActivity_def logUserActivity_try_def JSON_stringify_def)

lemma logUserActivity_unreadable:
  "existingLogs ls = Inl err \<Longrightarrow> logUserActivity e uid un rl act tok ls = Inr ls"
  by (simp add: logUserActivity_def logUserActivity_try_def)

lemma logUserActivity_returns: "\<exists>ls'. logUserActivity e uid un rl act tok ls = Inr ls'"
  by (cases "existingLogs ls") (simp_all add: logUserActivity_unreadable logUserActivity_readable)

lemma logUserActivity_items:
  "logUserActivity e uid un rl act tok ls = Inr ls' \<Longrightarrow> items ls' = items ls"
  by (cases "existingLogs ls") (auto simp: logUserActivity_unreadable logUserActivity_readable)

lemma updatedLogs_login:
  "act \<noteq> ''logout'' \<Longrightarrow> updatedLogs e uid un rl act tok logs = logs @ [newLog e uid un rl act tok]"
  by (simp add: updatedLogs_def)

lemma record_all_returns: "\<exists>ls'. record_all ls cs = Inr ls'"
proof (induction cs arbitrary: ls)
  case Nil
  show ?case by simp
next
  case (Cons c cs)
  obtain ls1 where "logUserActivity (call_env c) (call_userId c) (call_username c) (call_role c)
      (call_action c) (call_tokenName c) ls = Inr ls1"
    using logUserActivity_returns by blast
  with Cons.IH [of ls1] show ?case by simp
qed

lemma record_all_bounded:
  "existingLogs ls = Inr logs \<Longrightarrow> cs \<noteq> [] \<Longrightarrow>
     \<exists>es. record_all ls cs = Inr (ls\<lparr>userLogs := Some (Array_text es)\<rparr>) \<and> length es \<le> 100"
proof (induction cs arbitrary: ls logs)
  case Nil
  then show ?case by simp
next
  case (Cons c cs)
  let ?es1 = "slice (- 100) (updatedLogs (call_env c) (call_userId c) (call_username c)
                 (call_role c) (call_action c) (call_tokenName c) logs)"
  let ?ls1 = "ls\<lparr>userLogs := Some (Array_text ?es1)\<rparr>"
  have step: "record_all ls (c # cs) = record_all ?ls1 cs"
    using Cons.prems(1) by (simp add: logUserActivity_readable)
  show ?case
  proof (cases "cs = []")
    case True
    then have "record_all ls (c # cs) = Inr ?ls1 \<and> length ?es1 \<le> 100"
      using step by (simp add: length_slice_last)
    then show ?thesis by blast
  next
    case False
    have "existingLogs ?ls1 = Inr ?es1" by simp
    from Cons.IH [OF this False] obtain es where
      "record_all ?ls1 cs = Inr (?ls1\<lparr>userLogs := Some (Array_text es)\<rparr>)" "length es \<le> 100"
      by blast
    then have "record_all ls (c # cs) = Inr (ls\<lparr>userLogs := Some (Array_text es)\<rparr>) \<and>
                 length es \<le> 100"
      using step by simp
    then show ?thesis by blast
  qed
qed

lemma record_all_appends:
  "existingLogs ls = Inr logs \<Longrightarrow> cs \<noteq> [] \<Longrightarrow> \<forall>c \<in> set cs. call_action c \<noteq> ''logout'' \<Longrightarrow>
     record_all ls cs =
       Inr (ls\<lparr>userLogs := Some (Array_text (slice (- 100) (logs @ map entry_of_call cs)))\<rparr>)"
proof (induction cs arbitrary: ls logs)
  case Nil
  then show ?case by simp
next
  case (Cons c cs)
  let ?es1 = "slice (- 100) (logs @ [entry_of_call c])"
  let ?ls1 = "ls\<lparr>userLogs := Some (Array_text ?es1)\<rparr>"
  have act: "call_action c \<noteq> ''logout''" using Cons.prems(3) by simp
  have step: "record_all ls (c # cs) = record_all ?ls1 cs"
    using Cons.prems(1) act
    by (simp add: logUserActivity_readable updatedLogs_login entry_of_call_def)
  show ?case
  proof (cases "cs = []")
    case True
    then show ?thesis using step by simp
  next
    case False
    have ex: "existingLogs ?ls1 = Inr ?es1" by simp
    have all: "\<forall>c \<in> set cs. call_action c \<noteq> ''logout''" using Cons.prems(3) by simp
    have "record_all ?ls1 cs =
            Inr (?ls1\<lparr>userLogs := Some (Array_text (slice (- 100) (?es1 @ map entry_of_call cs)))\<rparr>)"
      by (rule Cons.IH [OF ex False all])
    then show ?thesis using step by (simp add: slice_last_append)
  qed
qed


lemma userId_newLog [simp]: "userId (newLog e uid un rl act tok) = uid"
  by (simp add: newLog_def)

text \<open>
  Claim C1. From a store whose log is readable, every non-empty sequence of calls of
  \<open>logUserActivity\<close> returns and leaves an array of at most 100 entries; one call writes the
  last 100 entries of the updated array (the oldest are dropped); and 101 login calls with
  distinct user ids on an empty log leave exactly the entries of the last 100 calls, none
  of them with the user id of the first call.
\<close>

theorem activity_log_bounded:
  assumes "existingLogs ls = Inr logs" and "cs \<noteq> []"
  shows "(\<exists>es. record_all ls cs = Inr (ls\<lparr>userLogs := Some (Array_text es)\<rparr>) \<and> length es \<le> 100)
       \<and> logUserActivity e uid un rl act tok ls =
           Inr (ls\<lparr>userLogs := Some (Array_text
                  (drop (length (updatedLogs e uid un rl act tok logs) - 100)
                     (updatedLogs e uid un rl act tok logs)))\<rparr>)
       \<and> (logs = [] \<and> length cs = 101 \<and> (\<forall>c \<in> set cs. call_action c = ''login'')
            \<and> distinct (map call_userId cs) \<longrightarrow>
          record_all ls cs = Inr (ls\<lparr>userLogs := Some (Array_text (map entry_of_call (tl cs)))\<rparr>)
          \<and> length (map entry_of_call (tl cs)) = 100
          \<and> (\<forall>x \<in> set (map entry_of_call (tl cs)). userId x \<noteq> call_userId (hd cs)))"
proof (intro conjI impI)
  show "\<exists>es. record_all ls cs = Inr (ls\<lparr>userLogs := Some (Array_text es)\<rparr>) \<and> length es \<le> 100"
    using assms by (rule record_all_bounded)
next
  show "logUserActivity e uid un rl act tok ls =
           Inr (ls\<lparr>userLogs := Some (Array_text
                  (drop (length (updatedLogs e uid un rl act tok logs) - 100)
                     (updatedLogs e uid un rl act tok logs)))\<rparr>)"
    using assms(1) by (simp add: logUserActivity_readable slice_last)
next
  assume h: "logs = [] \<and> length cs = 101 \<and> (\<forall>c \<in> set cs. call_action c = ''login'')
            \<and> distinct (map call_userId cs)"
  then have "\<forall>c \<in> set cs. call_action c \<noteq> ''logout''" by auto
  from record_all_appends [OF assms this] h
  show "record_all ls cs = Inr (ls\<lparr>userLogs := Some (Array_text (map entry_of_call (tl cs)))\<rparr>)"
    by (simp add: slice_last drop_Suc drop_map)
next
  assume h: "logs = [] \<and> length cs = 101 \<and> (\<forall>c \<in> set cs. call_action c = ''login'')
            \<and> distinct (map call_userId cs)"
  then show "length (map entry_of_call (tl cs)) = 100" by simp
next
  assume h: "logs = [] \<and> length cs = 101 \<and> (\<forall>c \<in> set cs. call_action c = ''login'')
            \<and> distinct (map call_userId cs)"
  then obtain c cs' where cs: "cs = c # cs'" by (cases cs) auto
  with h have "call_userId c \<notin> call_userId ` set cs'" by simp
  then have "\<forall>x \<in> set cs'. call_userId x \<noteq> call_userId c" by (metis imageI)
  then show "\<forall>x \<in> set (map entry_of_call (tl cs)). userId x \<noteq> call_userId (hd cs)"
    unfolding cs by (auto simp: entry_of_call_def)
qed

text \<open>The 101 login calls \<open>loginCall 0\<close>, ..., \<open>loginCall 100\<close> on the store with no key.\<close>

theorem activity_log_bounded_witness:
  "existingLogs emptyStorage = Inr [] \<and> length (map loginCall [0..<101]) = 101
   \<and> map call_action (map loginCall [0..<101]) = replicate 101 ''login''
   \<and> distinct (map call_userId (map loginCall [0..<101]))
   \<and> record_all emptyStorage (map loginCall [0..<101]) =
       Inr (emptyStorage\<lparr>userLogs := Some (Array_text (map entry_of_call (map loginCall [1..<101])))\<rparr>)
   \<and> length (map entry_of_call (map loginCall [1..<101])) = 100
   \<and> userId (entry_of_call (loginCall 0)) = ''u''
   \<and> ''u'' \<notin> userId ` set (map entry_of_call (map loginCall [1..<101]))"
proof -
  let ?cs = "map loginCall [0..<101]"
  have h1: "existingLogs emptyStorage = Inr []"
    by (simp add: existingLogs_def emptyStorage_def JSON_parse_def)
  have h2: "?cs \<noteq> []" by simp
  have h3: "\<forall>c \<in> set ?cs. call_action c = ''login''" by (simp add: loginCall_def)
  have h4: "distinct (map call_userId ?cs)"
    by (simp add: distinct_map inj_on_def loginCall_def comp_def)
  have tl: "tl ?cs = map loginCall [1..<101]"
    by (simp add: map_tl [symmetric] upt_conv_Cons)
  have hd: "hd ?cs = loginCall 0" by (simp add: hd_map upt_conv_Cons)
  have h5: "map call_action ?cs = replicate 101 ''login''"
    using h3 by (simp add: map_replicate_const [symmetric] loginCall_def comp_def map_replicate_trivial)
  from activity_log_bounded [OF h1 h2, of env0 "''u''" "''a@x.com''" "''user''" "''login''" None]
    h1 h3 h4 h5 show ?thesis
    unfolding tl hd by (auto simp: entry_of_call_def loginCall_def)
qed


lemma updatedLogs_logout_found:
  assumes "\<exists>x \<in> set logs. openLogin uid x"
  shows "\<exists>i < length logs. openLogin uid (logs ! i) \<and> (\<forall>j < i. \<not> openLogin uid (logs ! j)) \<and>
           i = nat (findIndex (openLogin uid) logs) \<and>
           updatedLogs e uid un rl ''logout'' tok logs =
             logs[i := (logs ! i)\<lparr>logoutTime := Some (updateISO e), action := ''logout''\<rparr>]"
proof -
  from assms have ne: "findIndex (openLogin uid) logs \<noteq> - 1" by (simp add: findIndex_none)
  from findIndex_first [OF ne] ne show ?thesis
    by (intro exI [of _ "nat (findIndex (openLogin uid) logs)"]) (simp add: updatedLogs_def Let_def)
qed

lemma updatedLogs_logout_missing:
  assumes "\<not> (\<exists>x \<in> set logs. openLogin uid x)"
  shows "updatedLogs e uid un rl ''logout'' tok logs = logs @ [newLog e uid un rl ''logout'' tok]"
  using assms by (simp add: updatedLogs_def findIndex_none Let_def)

lemma slice_last_short: "length xs \<le> 100 \<Longrightarrow> slice (- 100) xs = xs"
  by (simp add: slice_last)

lemma slice_last_snoc: "slice (- 100) (xs @ [x]) = drop (length xs - 99) xs @ [x]"
  by (simp add: slice_last) 

text \<open>
  Claim C2. A call with action \<open>logout\<close> for user \<open>uid\<close> on a readable log: when some entry
  has \<open>userId = uid\<close>, \<open>action = login\<close> and \<open>logoutTime = null\<close>, the first such entry in scan
  order gets \<open>logoutTime\<close> = the time read at line 128 and \<open>action = logout\<close>, its id and its
  place are kept, and what is written is the last 100 entries of that array (the array itself
  when it has at most 100 entries: nothing is appended); when no entry matches, a new entry
  with \<open>action = logout\<close>, \<open>logoutTime\<close> = the time read at line 114 and \<open>loginTime = null\<close> is
  written at the end.
\<close>

theorem logout_reconciles:
  assumes "existingLogs ls = Inr logs"
  shows "((\<exists>x \<in> set logs. userId x = uid \<and> action x = ''login'' \<and> logoutTime x = None) \<longrightarrow>
            (\<exists>i < length logs.
               (userId (logs ! i) = uid \<and> action (logs ! i) = ''login'' \<and> logoutTime (logs ! i) = None)
               \<and> (\<forall>j < i. \<not> (userId (logs ! j) = uid \<and> action (logs ! j) = ''login''
                                 \<and> logoutTime (logs ! j) = None))
               \<and> logUserActivity e uid un rl ''logout'' tok ls =
                   Inr (ls\<lparr>userLogs := Some (Array_text (slice (- 100)
                     (logs[i := (logs ! i)\<lparr>logoutTime := Some (updateISO e),
                                             action := ''logout''\<rparr>])))\<rparr>)
               \<and> (length logs \<le> 100 \<longrightarrow>
                    logUserActivity e uid un rl ''logout'' tok ls =
                      Inr (ls\<lparr>userLogs := Some (Array_text
                        (logs[i := (logs ! i)\<lparr>logoutTime := Some (updateISO e),
                                                action := ''logout''\<rparr>]))\<rparr>))
               \<and> log_id ((logs ! i)\<lparr>logoutTime := Some (updateISO e), action := ''logout''\<rparr>)
                    = log_id (logs ! i)))
       \<and> (\<not> (\<exists>x \<in> set logs. userId x = uid \<and> action x = ''login'' \<and> logoutTime x = None) \<longrightarrow>
            logUserActivity e uid un rl ''logout'' tok ls =
              Inr (ls\<lparr>userLogs := Some (Array_text
                (drop (length logs - 99) logs @ [newLog e uid un rl ''logout'' tok]))\<rparr>)
            \<and> action (newLog e uid un rl ''logout'' tok) = ''logout''
            \<and> logoutTime (newLog e uid un rl ''logout'' tok) = Some (logoutISO e)
            \<and> loginTime (newLog e uid un rl ''logout'' tok) = None
            \<and> userId (newLog e uid un rl ''logout'' tok) = uid)"
proof (intro conjI impI)
  assume "\<exists>x \<in> set logs. userId x = uid \<and> action x = ''login'' \<and> logoutTime x = None"
  then have "\<exists>x \<in> set logs. openLogin uid x" by (simp add: openLogin_def)
  from updatedLogs_logout_found [OF this, of e un rl tok] obtain i where
    i: "i < length logs" "openLogin uid (logs ! i)" "\<forall>j < i. \<not> openLogin uid (logs ! j)"
       "updatedLogs e uid un rl ''logout'' tok logs =
          logs[i := (logs ! i)\<lparr>logoutTime := Some (updateISO e), action := ''logout''\<rparr>]"
    by blast
  show "\<exists>i < length logs.
               (userId (logs ! i) = uid \<and> action (logs ! i) = ''login'' \<and> logoutTime (logs ! i) = None)
               \<and> (\<forall>j < i. \<not> (userId (logs ! j) = uid \<and> action (logs ! j) = ''login''
                                 \<and> logoutTime (logs ! j) = None))
               \<and> logUserActivity e uid un rl ''logout'' tok ls =
                   Inr (ls\<lparr>userLogs := Some (Array_text (slice (- 100)
                     (logs[i := (logs ! i)\<lparr>logoutTime := Some (updateISO e),
                                             action := ''logout''\<rparr>])))\<rparr>)
               \<and> (length logs \<le> 100 \<longrightarrow>
                    logUserActivity e uid un rl ''logout'' tok ls =
                      Inr (ls\<lparr>userLogs := Some (Array_text
                        (logs[i := (logs ! i)\<lparr>logoutTime := Some (updateISO e),
                                                action := ''logout''\<rparr>]))\<rparr>))
               \<and> log_id ((logs ! i)\<lparr>logoutTime := Some (updateISO e), action := ''logout''\<rparr>)
                    = log_id (logs ! i)"
    using i assms
    by (intro exI [of _ i]) (simp add: logUserActivity_readable openLogin_def slice_last_short)
next
  assume "\<not> (\<exists>x \<in> set logs. userId x = uid \<and> action x = ''login'' \<and> logoutTime x = None)"
  then have "\<not> (\<exists>x \<in> set logs. openLogin uid x)" by (simp add: openLogin_def)
  from updatedLogs_logout_missing [OF this, of e un rl tok] assms
  show "logUserActivity e uid un rl ''logout'' tok ls =
              Inr (ls\<lparr>userLogs := Some (Array_text
                (drop (length logs - 99) logs @ [newLog e uid un rl ''logout'' tok]))\<rparr>)"
    by (simp add: logUserActivity_readable slice_last_snoc)
qed (simp_all add: newLog_def)


lemma existingLogs_emptyStorage: "existingLogs emptyStorage = Inr []"
  by (simp add: existingLogs_def emptyStorage_def JSON_parse_def)

lemma existingLogs_oneLoginStorage: "existingLogs oneLoginStorage = Inr [openEntry]"
  by (simp add: existingLogs_def oneLoginStorage_def JSON_parse_def)

lemma existingLogs_threeLoginStorage:
  "existingLogs threeLoginStorage = Inr [otherEntry, openEntry, laterEntry]"
  by (simp add: existingLogs_def threeLoginStorage_def JSON_parse_def)

lemma sample_entries:
  "userId otherEntry = ''u2''" "userId openEntry = ''u1''" "userId laterEntry = ''u1''"
  "action otherEntry = ''login''" "action openEntry = ''login''" "action laterEntry = ''login''"
  "logoutTime otherEntry = None" "logoutTime openEntry = None" "logoutTime laterEntry = None"
  by (simp_all add: otherEntry_def openEntry_def laterEntry_def newLog_def)

text \<open>A logout of \<open>u1\<close> on the log of three open logins (the first open login of \<open>u1\<close>
  is the second entry), and on the store with no key.\<close>

theorem logout_reconciles_witness:
  "logUserActivity env0 ''u1'' ''a@x.com'' ''user'' ''logout'' None threeLoginStorage =
     Inr (threeLoginStorage\<lparr>userLogs := Some (Array_text
            [otherEntry,
             openEntry\<lparr>logoutTime := Some (updateISO env0), action := ''logout''\<rparr>,
             laterEntry])\<rparr>)
   \<and> logUserActivity env0 ''u1'' ''a@x.com'' ''user'' ''logout'' None emptyStorage =
     Inr (emptyStorage\<lparr>userLogs := Some (Array_text
            [newLog env0 ''u1'' ''a@x.com'' ''user'' ''logout'' None])\<rparr>)"
proof -
  let ?logs = "[otherEntry, openEntry, laterEntry]"
  have some: "\<exists>x \<in> set ?logs. userId x = ''u1'' \<and> action x = ''login'' \<and> logoutTime x = None"
    by (simp add: sample_entries)
  have short: "length ?logs \<le> 100" by simp
  note r = logout_reconciles [OF existingLogs_threeLoginStorage, of "''u1''" env0 "''a@x.com''"
      "''user''" None, THEN conjunct1, THEN mp, OF some]
  from r short obtain i where i: "i < length ?logs"
    "userId (?logs ! i) = ''u1''"
    "\<forall>j < i. \<not> (userId (?logs ! j) = ''u1'' \<and> action (?logs ! j) = ''login''
                 \<and> logoutTime (?logs ! j) = None)"
    "logUserActivity env0 ''u1'' ''a@x.com'' ''user'' ''logout'' None threeLoginStorage =
       Inr (threeLoginStorage\<lparr>userLogs := Some (Array_text
         (?logs[i := (?logs ! i)\<lparr>logoutTime := Some (updateISO env0), action := ''logout''\<rparr>]))\<rparr>)"
    by blast
  have "i = 1"
  proof -
    from i(1) have "i = 0 \<or> i = 1 \<or> i = 2" by (simp add: less_Suc_eq) arith
    moreover have "i \<noteq> 0"
    proof
      assume "i = 0"
      with i(2) show False by (simp add: sample_entries)
    qed
    moreover have "i \<noteq> 2"
    proof
      assume "i = 2"
      then have "(1::nat) < i" by simp
      with i(3) have "\<not> (userId (?logs ! 1) = ''u1'' \<and> action (?logs ! 1) = ''login''
                 \<and> logoutTime (?logs ! 1) = None)" by blast
      then show False by (simp add: sample_entries)
    qed
    ultimately show ?thesis by blast
  qed
  with i(4) have a: "logUserActivity env0 ''u1'' ''a@x.com'' ''user'' ''logout'' None threeLoginStorage =
     Inr (threeLoginStorage\<lparr>userLogs := Some (Array_text
            [otherEntry,
             openEntry\<lparr>logoutTime := Some (updateISO env0), action := ''logout''\<rparr>,
             laterEntry])\<rparr>)"
    by simp
  from logout_reconciles [OF existingLogs_emptyStorage, of "''u1''" env0 "''a@x.com''" "''user''" None]
  have b: "logUserActivity env0 ''u1'' ''a@x.com'' ''user'' ''logout'' None emptyStorage =
     Inr (emptyStorage\<lparr>userLogs := Some (Array_text
            [newLog env0 ''u1'' ''a@x.com'' ''user'' ''logout'' None])\<rparr>)"
    by simp
  from a b show ?thesis by simp
qed

lemma slice_last_snoc2:
  "\<exists>pre. slice (- 100) (slice (- 100) (xs @ [a]) @ [b]) = pre @ [a, b]"
proof -
  have "slice (- 100) (slice (- 100) (xs @ [a]) @ [b]) = drop (length xs - 98) xs @ [a, b]"
    by (simp add: slice_last_append) (simp add: slice_last)
  then show ?thesis by blast
qed

text \<open>
  Claim C3. A call with action \<open>login\<close> on a readable log, whatever the log holds, writes
  the new entry at the end, with \<open>loginTime\<close> = the time read at line 113 and
  \<open>logoutTime = null\<close>; two such calls in a row for one user id leave their two entries at the
  end of the log, both open login entries of that user.
\<close>

theorem login_appends:
  assumes "existingLogs ls = Inr logs"
  shows "logUserActivity e uid un rl ''login'' tok ls =
           Inr (ls\<lparr>userLogs := Some (Array_text
                  (drop (length logs - 99) logs @ [newLog e uid un rl ''login'' tok]))\<rparr>)
       \<and> loginTime (newLog e uid un rl ''login'' tok) = Some (loginISO e)
       \<and> logoutTime (newLog e uid un rl ''login'' tok) = None
       \<and> userId (newLog e uid un rl ''login'' tok) = uid
       \<and> action (newLog e uid un rl ''login'' tok) = ''login''
       \<and> (\<exists>ls1 ls2 pre.
             logUserActivity e uid un rl ''login'' tok ls = Inr ls1
             \<and> logUserActivity e' uid un' rl' ''login'' tok' ls1 = Inr ls2
             \<and> userLogs ls2 = Some (Array_text
                 (pre @ [newLog e uid un rl ''login'' tok, newLog e' uid un' rl' ''login'' tok']))
             \<and> openLogin uid (newLog e uid un rl ''login'' tok)
             \<and> openLogin uid (newLog e' uid un' rl' ''login'' tok'))"
proof -
  let ?n1 = "newLog e uid un rl ''login'' tok"
  let ?n2 = "newLog e' uid un' rl' ''login'' tok'"
  let ?ls1 = "ls\<lparr>userLogs := Some (Array_text (slice (- 100) (logs @ [?n1])))\<rparr>"
  have one: "logUserActivity e uid un rl ''login'' tok ls = Inr ?ls1"
    using assms by (simp add: logUserActivity_readable updatedLogs_login)
  have two: "logUserActivity e' uid un' rl' ''login'' tok' ?ls1 =
               Inr (?ls1\<lparr>userLogs := Some (Array_text
                      (slice (- 100) (slice (- 100) (logs @ [?n1]) @ [?n2])))\<rparr>)"
    by (simp add: logUserActivity_readable updatedLogs_login)
  obtain pre where pre: "slice (- 100) (slice (- 100) (logs @ [?n1]) @ [?n2]) = pre @ [?n1, ?n2]"
    using slice_last_snoc2 [of logs ?n1 ?n2] by blast
  have opens: "openLogin uid ?n1 \<and> openLogin uid ?n2"
    by (simp add: openLogin_def newLog_def)
  have pair: "\<exists>ls1 ls2 pre.
             logUserActivity e uid un rl ''login'' tok ls = Inr ls1
             \<and> logUserActivity e' uid un' rl' ''login'' tok' ls1 = Inr ls2
             \<and> userLogs ls2 = Some (Array_text (pre @ [?n1, ?n2]))
             \<and> openLogin uid ?n1 \<and> openLogin uid ?n2"
    using one two pre opens
    by (intro exI [of _ ?ls1] exI [of _ "?ls1\<lparr>userLogs := Some (Array_text (pre @ [?n1, ?n2]))\<rparr>"]
          exI [of _ pre]) simp
  have fields: "loginTime ?n1 = Some (loginISO e) \<and> logoutTime ?n1 = None \<and> userId ?n1 = uid
                  \<and> action ?n1 = ''login''"
    by (simp add: newLog_def)
  from one pair fields show ?thesis by (simp add: slice_last_snoc)
qed

text \<open>A second login of \<open>u1\<close> on the log that holds one open login of \<open>u1\<close>.\<close>

theorem login_appends_witness:
  "logUserActivity env0 ''u1'' ''a@x.com'' ''user'' ''login'' None oneLoginStorage =
     Inr (oneLoginStorage\<lparr>userLogs := Some (Array_text [openEntry, openEntry])\<rparr>)
   \<and> openLogin ''u1'' openEntry"
  using login_appends [OF existingLogs_oneLoginStorage, of env0 "''u1''" "''a@x.com''" "''user''" None]
  by (simp add: openEntry_def openLogin_def)

text \<open>
  Claim C9. One call of \<open>logUserActivity\<close> on a readable log of at most 100 entries (the
  bound every write of the code establishes). When the call is a logout that finds an open
  login entry, the written array has the length of the old one, equals it at every other
  index, and at the found index differs from the old entry only in \<open>logoutTime\<close> and
  \<open>action\<close>: id, user id, user name, role, login time, address and token name are
  kept. Otherwise the written array is the old one, in its order and without its oldest entry
  when it was full, followed by the new entry. The other keys of the store are not touched.
\<close>

theorem record_frame:
  assumes "existingLogs ls = Inr logs" and "length logs \<le> 100"
  shows "\<exists>logs'. logUserActivity e uid un rl act tok ls = Inr (ls\<lparr>userLogs := Some (Array_text logs')\<rparr>)
          \<and> (if act = ''logout'' \<and> findIndex (openLogin uid) logs \<noteq> - 1 then
               nat (findIndex (openLogin uid) logs) < length logs
               \<and> length logs' = length logs
               \<and> (\<forall>j < length logs. j \<noteq> nat (findIndex (openLogin uid) logs) \<longrightarrow> logs' ! j = logs ! j)
               \<and> logs' ! nat (findIndex (openLogin uid) logs) =
                   (logs ! nat (findIndex (openLogin uid) logs))
                     \<lparr>logoutTime := Some (updateISO e), action := ''logout''\<rparr>
               \<and> log_id (logs' ! nat (findIndex (openLogin uid) logs)) =
                   log_id (logs ! nat (findIndex (openLogin uid) logs))
               \<and> userId (logs' ! nat (findIndex (openLogin uid) logs)) =
                   userId (logs ! nat (findIndex (openLogin uid) logs))
               \<and> username (logs' ! nat (findIndex (openLogin uid) logs)) =
                   username (logs ! nat (findIndex (openLogin uid) logs))
               \<and> role (logs' ! nat (findIndex (openLogin uid) logs)) =
                   role (logs ! nat (findIndex (openLogin uid) logs))
               \<and> loginTime (logs' ! nat (findIndex (openLogin uid) logs)) =
                   loginTime (logs ! nat (findIndex (openLogin uid) logs))
               \<and> ipAddress (logs' ! nat (findIndex (openLogin uid) logs)) =
                   ipAddress (logs ! nat (findIndex (openLogin uid) logs))
               \<and> tokenName (logs' ! nat (findIndex (openLogin uid) logs)) =
                   tokenName (logs ! nat (findIndex (openLogin uid) logs))
             else logs' = drop (length logs - 99) logs @ [newLog e uid un rl act tok])"
proof (cases "act = ''logout'' \<and> findIndex (openLogin uid) logs \<noteq> - 1")
  case True
  let ?i = "nat (findIndex (openLogin uid) logs)"
  let ?logs' = "logs[?i := (logs ! ?i)\<lparr>logoutTime := Some (updateISO e), action := ''logout''\<rparr>]"
  from True have i: "?i < length logs" using findIndex_first [of "openLogin uid" logs] by simp
  have upd: "updatedLogs e uid un rl act tok logs = ?logs'"
    using True by (simp add: updatedLogs_def Let_def)
  have "logUserActivity e uid un rl act tok ls = Inr (ls\<lparr>userLogs := Some (Array_text ?logs')\<rparr>)"
    using assms upd by (simp add: logUserActivity_readable slice_last_short)
  then show ?thesis using True i
    by (intro exI [of _ ?logs']) simp
next
  case False
  have upd: "updatedLogs e uid un rl act tok logs = logs @ [newLog e uid un rl act tok]"
    using False by (auto simp: updatedLogs_def Let_def)
  have "logUserActivity e uid un rl act tok ls =
          Inr (ls\<lparr>userLogs := Some (Array_text
                 (drop (length logs - 99) logs @ [newLog e uid un rl act tok]))\<rparr>)"
    using assms(1) upd by (simp add: logUserActivity_readable slice_last_snoc)
  then show ?thesis using False
    by (intro exI [of _ "drop (length logs - 99) logs @ [newLog e uid un rl act tok]"]) auto
qed

text \<open>A logout of \<open>u1\<close>, then instead a logout of \<open>u3\<close>, on the log of three open logins.\<close>

theorem record_frame_witness:
  "(\<exists>logs'. logUserActivity env0 ''u1'' ''a@x.com'' ''user'' ''logout'' None threeLoginStorage =
       Inr (threeLoginStorage\<lparr>userLogs := Some (Array_text logs')\<rparr>)
     \<and> length logs' = 3 \<and> logs' ! 0 = otherEntry
     \<and> logs' ! 1 = openEntry\<lparr>logoutTime := Some (updateISO env0), action := ''logout''\<rparr>
     \<and> logs' ! 2 = laterEntry)
   \<and> (\<exists>logs'. logUserActivity env0 ''u3'' ''c@x.com'' ''user'' ''logout'' None threeLoginStorage =
       Inr (threeLoginStorage\<lparr>userLogs := Some (Array_text logs')\<rparr>)
     \<and> logs' = [otherEntry, openEntry, laterEntry,
                 newLog env0 ''u3'' ''c@x.com'' ''user'' ''logout'' None])"
proof -
  have len: "length [otherEntry, openEntry, laterEntry] \<le> 100" by simp
  have f1: "findIndex (openLogin ''u1'') [otherEntry, openEntry, laterEntry] = 1"
    by (simp add: openLogin_def sample_entries)
  have f2: "findIndex (openLogin ''u3'') [otherEntry, openEntry, laterEntry] = - 1"
    by (simp add: openLogin_def sample_entries)
  from record_frame [OF existingLogs_threeLoginStorage len, of env0 "''u1''" "''a@x.com''" "''user''" "''logout''" None]
  obtain logs' where
    l: "logUserActivity env0 ''u1'' ''a@x.com'' ''user'' ''logout'' None threeLoginStorage =
       Inr (threeLoginStorage\<lparr>userLogs := Some (Array_text logs')\<rparr>)"
       "length logs' = 3"
       "\<forall>j < 3. j \<noteq> 1 \<longrightarrow> logs' ! j = [otherEntry, openEntry, laterEntry] ! j"
       "logs' ! 1 = openEntry\<lparr>logoutTime := Some (updateISO env0), action := ''logout''\<rparr>"
    by (auto simp del: findIndex.simps simp add: f1)
  from l(3) have "logs' ! 0 = otherEntry \<and> logs' ! 2 = laterEntry" by simp
  with l have a: "\<exists>logs'. logUserActivity env0 ''u1'' ''a@x.com'' ''user'' ''logout'' None threeLoginStorage =
       Inr (threeLoginStorage\<lparr>userLogs := Some (Array_text logs')\<rparr>)
     \<and> length logs' = 3 \<and> logs' ! 0 = otherEntry
     \<and> logs' ! 1 = openEntry\<lparr>logoutTime := Some (updateISO env0), action := ''logout''\<rparr>
     \<and> logs' ! 2 = laterEntry"
    by blast
  from record_frame [OF existingLogs_threeLoginStorage len, of env0 "''u3''" "''c@x.com''" "''user''" "''logout''" None]
  have b: "\<exists>logs'. logUserActivity env0 ''u3'' ''c@x.com'' ''user'' ''logout'' None threeLoginStorage =
       Inr (threeLoginStorage\<lparr>userLogs := Some (Array_text logs')\<rparr>)
     \<and> logs' = [otherEntry, openEntry, laterEntry,
                 newLog env0 ''u3'' ''c@x.com'' ''user'' ''logout'' None]"
    by (simp del: findIndex.simps add: f2)
  from a b show ?thesis by blast
qed

section \<open>Logout\<close>

lemma getItem_clearAuth:
  "getItem ''token'' (clearAuth ls) = None \<and> getItem ''userRole'' (clearAuth ls) = None
   \<and> getItem ''userId'' (clearAuth ls) = None \<and> getItem ''email'' (clearAuth ls) = None"
  by (simp add: clearAuth_def getItem_def removeItem_def)

lemma userLogs_clearAuth: "userLogs (clearAuth ls) = userLogs ls"
  by (simp add: clearAuth_def removeItem_def)

lemma handleLogout_try_eq:
  "\<exists>ls'. (if truthy (getItem ''userId'' (storage s)) \<and> truthy (getItem ''email'' (storage s))
             \<and> truthy (getItem ''userRole'' (storage s))
          then logUserActivity e (the (getItem ''userId'' (storage s)))
                 (the (getItem ''email'' (storage s))) (the (getItem ''userRole'' (storage s)))
                 ''logout'' None (storage s) = Inr ls'
          else ls' = storage s)
       \<and> handleLogout_try e s = Inr (s\<lparr>storage := clearAuth ls', user := None\<rparr>)"
proof (cases "truthy (getItem ''userId'' (storage s)) \<and> truthy (getItem ''email'' (storage s))
             \<and> truthy (getItem ''userRole'' (storage s))")
  case True
  obtain ls' where "logUserActivity e (the (getItem ''userId'' (storage s)))
                 (the (getItem ''email'' (storage s))) (the (getItem ''userRole'' (storage s)))
                 ''logout'' None (storage s) = Inr ls'"
    using logUserActivity_returns by blast
  with True show ?thesis by (simp add: handleLogout_try_def)
next
  case False
  then show ?thesis by (auto simp: handleLogout_try_def)
qed

lemma handleLogout_eq:
  "\<exists>ls'. (if truthy (getItem ''userId'' (storage s)) \<and> truthy (getItem ''email'' (storage s))
             \<and> truthy (getItem ''userRole'' (storage s))
          then logUserActivity e (the (getItem ''userId'' (storage s)))
                 (the (getItem ''email'' (storage s))) (the (getItem ''userRole'' (storage s)))
                 ''logout'' None (storage s) = Inr ls'
          else ls' = storage s)
       \<and> handleLogout e s = Inr (s\<lparr>storage := clearAuth ls', user := None\<rparr>)"
proof -
  from handleLogout_try_eq [of s e] obtain ls' where
    "(if truthy (getItem ''userId'' (storage s)) \<and> truthy (getItem ''email'' (storage s))
             \<and> truthy (getItem ''userRole'' (storage s))
          then logUserActivity e (the (getItem ''userId'' (storage s)))
                 (the (getItem ''email'' (storage s))) (the (getItem ''userRole'' (storage s)))
                 ''logout'' None (storage s) = Inr ls'
          else ls' = storage s)"
    "handleLogout_try e s = Inr (s\<lparr>storage := clearAuth ls', user := None\<rparr>)"
    by blast
  then show ?thesis by (intro exI [of _ ls']) (simp add: handleLogout_def)
qed

lemma handleLogout_cleared:
  "\<exists>s'. handleLogout e s = Inr s' \<and> user s' = None \<and> loading s' = loading s
        \<and> getItem ''token'' (storage s') = None \<and> getItem ''userRole'' (storage s') = None
        \<and> getItem ''userId'' (storage s') = None \<and> getItem ''email'' (storage s') = None"
proof -
  from handleLogout_eq [of s e] obtain ls' where
    "handleLogout e s = Inr (s\<lparr>storage := clearAuth ls', user := None\<rparr>)" by blast
  then show ?thesis by (simp add: getItem_clearAuth)
qed

text \<open>
  Claim C7. \<open>handleLogout\<close> returns normally from every state, with the four session keys
  removed and the user reset; the body of its \<open>try\<close> never raises. When the stored log cannot
  be read, the body of \<open>logUserActivity\<close> raises, \<open>logUserActivity\<close> swallows the error and
  leaves the store as it was, and \<open>handleLogout\<close> still clears the session.
\<close>

theorem logout_always_clears:
  "(\<exists>s'. handleLogout e s = Inr s' \<and> user s' = None
          \<and> getItem ''token'' (storage s') = None \<and> getItem ''userRole'' (storage s') = None
          \<and> getItem ''userId'' (storage s') = None \<and> getItem ''email'' (storage s') = None)
   \<and> (\<exists>s'. handleLogout_try e s = Inr s')
   \<and> (existingLogs (storage s) = Inl err \<longrightarrow>
        logUserActivity_try e uid un rl ''logout'' None (storage s) = Inl err
        \<and> logUserActivity e uid un rl ''logout'' None (storage s) = Inr (storage s)
        \<and> handleLogout e s = Inr (s\<lparr>storage := clearAuth (storage s), user := None\<rparr>))"
proof (intro conjI impI)
  show "\<exists>s'. handleLogout e s = Inr s' \<and> user s' = None
          \<and> getItem ''token'' (storage s') = None \<and> getItem ''userRole'' (storage s') = None
          \<and> getItem ''userId'' (storage s') = None \<and> getItem ''email'' (storage s') = None"
    using handleLogout_cleared [of e s] by blast
next
  show "\<exists>s'. handleLogout_try e s = Inr s'"
    using handleLogout_try_eq [of s e] by blast
next
  assume bad: "existingLogs (storage s) = Inl err"
  then show "logUserActivity_try e uid un rl ''logout'' None (storage s) = Inl err"
    by (simp add: logUserActivity_try_def)
  from bad show "logUserActivity e uid un rl ''logout'' None (storage s) = Inr (storage s)"
    by (rule logUserActivity_unreadable)
  from handleLogout_eq [of s e] obtain ls' where
    a: "(if truthy (getItem ''userId'' (storage s)) \<and> truthy (getItem ''email'' (storage s))
             \<and> truthy (getItem ''userRole'' (storage s))
          then logUserActivity e (the (getItem ''userId'' (storage s)))
                 (the (getItem ''email'' (storage s))) (the (getItem ''userRole'' (storage s)))
                 ''logout'' None (storage s) = Inr ls'
          else ls' = storage s)"
    and b: "handleLogout e s = Inr (s\<lparr>storage := clearAuth ls', user := None\<rparr>)"
    by blast
  from a bad have "ls' = storage s"
    by (simp add: logUserActivity_unreadable split: if_splits)
  with b show "handleLogout e s = Inr (s\<lparr>storage := clearAuth (storage s), user := None\<rparr>)"
    by simp
qed

lemma existingLogs_corruptStorage: "existingLogs corruptStorage = Inl SyntaxError"
  by (simp add: existingLogs_def corruptStorage_def JSON_parse_def)

text \<open>Logout with a full session and an unreadable log.\<close>

theorem logout_always_clears_witness:
  "existingLogs corruptStorage = Inl SyntaxError
   \<and> truthy (getItem ''userId'' corruptStorage) \<and> truthy (getItem ''email'' corruptStorage)
   \<and> truthy (getItem ''userRole'' corruptStorage)
   \<and> logUserActivity_try env0 ''u1'' ''a@x.com'' ''user'' ''logout'' None corruptStorage
       = Inl SyntaxError
   \<and> handleLogout env0 (initialState corruptStorage)
       = Inr \<lparr> storage = \<lparr>items = Map.empty, userLogs = Some Malformed\<rparr>, user = None,
               loading = True \<rparr>"
proof -
  have st: "storage (initialState corruptStorage) = corruptStorage"
    by (simp add: initialState_def Let_def)
  have ex: "existingLogs (storage (initialState corruptStorage)) = Inl SyntaxError"
    by (simp add: st existingLogs_corruptStorage)
  have tr: "truthy (getItem ''userId'' corruptStorage) \<and> truthy (getItem ''email'' corruptStorage)
            \<and> truthy (getItem ''userRole'' corruptStorage)"
    by (simp add: truthy_def getItem_def corruptStorage_def sessionStorage_def)
  have cl: "clearAuth corruptStorage = \<lparr>items = Map.empty, userLogs = Some Malformed\<rparr>"
    by (simp add: clearAuth_def removeItem_def corruptStorage_def sessionStorage_def)
  from logout_always_clears [of env0 "initialState corruptStorage" SyntaxError
      "''u1''" "''a@x.com''" "''user''"] ex tr
  show ?thesis
    by (simp add: st cl existingLogs_corruptStorage) (simp add: initialState_def Let_def)
qed


text \<open>
  Claim C8. \<open>handleLogout\<close> reads \<open>userId\<close>, \<open>email\<close> and \<open>userRole\<close> from the store: the
  user held in memory does not change its result. It calls \<open>logUserActivity\<close> with action
  \<open>logout\<close> exactly when the three stored values are non-empty strings (on a readable log the
  reconciled log is then written); otherwise the log is left as it was. In both cases the
  four session keys are removed and the user is reset.
\<close>

theorem logout_event:
  "\<exists>ls'. (if truthy (getItem ''userId'' (storage s)) \<and> truthy (getItem ''email'' (storage s))
             \<and> truthy (getItem ''userRole'' (storage s))
          then logUserActivity e (the (getItem ''userId'' (storage s)))
                 (the (getItem ''email'' (storage s))) (the (getItem ''userRole'' (storage s)))
                 ''logout'' None (storage s) = Inr ls'
          else ls' = storage s)
       \<and> handleLogout e s = Inr (s\<lparr>storage := clearAuth ls', user := None\<rparr>)
       \<and> handleLogout e (s\<lparr>user := u\<rparr>) = Inr (s\<lparr>storage := clearAuth ls', user := None\<rparr>)
       \<and> getItem ''token'' (clearAuth ls') = None \<and> getItem ''userRole'' (clearAuth ls') = None
       \<and> getItem ''userId'' (clearAuth ls') = None \<and> getItem ''email'' (clearAuth ls') = None
       \<and> (\<forall>uid em rl logs.
             getItem ''userId'' (storage s) = Some uid \<and> uid \<noteq> []
             \<and> getItem ''email'' (storage s) = Some em \<and> em \<noteq> []
             \<and> getItem ''userRole'' (storage s) = Some rl \<and> rl \<noteq> []
             \<and> existingLogs (storage s) = Inr logs \<longrightarrow>
             userLogs (clearAuth ls') =
               Some (Array_text (slice (- 100) (updatedLogs e uid em rl ''logout'' None logs))))
       \<and> (\<not> (truthy (getItem ''userId'' (storage s)) \<and> truthy (getItem ''email'' (storage s))
               \<and> truthy (getItem ''userRole'' (storage s))) \<longrightarrow>
             userLogs (clearAuth ls') = userLogs (storage s))"
proof -
  let ?c = "truthy (getItem ''userId'' (storage s)) \<and> truthy (getItem ''email'' (storage s))
             \<and> truthy (getItem ''userRole'' (storage s))"
  from handleLogout_eq [of s e] obtain ls' where
    a: "(if ?c then logUserActivity e (the (getItem ''userId'' (storage s)))
                 (the (getItem ''email'' (storage s))) (the (getItem ''userRole'' (storage s)))
                 ''logout'' None (storage s) = Inr ls'
          else ls' = storage s)"
    and b: "handleLogout e s = Inr (s\<lparr>storage := clearAuth ls', user := None\<rparr>)"
    by blast
  from handleLogout_eq [of "s\<lparr>user := u\<rparr>" e] a
  have c: "handleLogout e (s\<lparr>user := u\<rparr>) = Inr (s\<lparr>storage := clearAuth ls', user := None\<rparr>)"
    by (auto split: if_splits)
  have d: "\<forall>uid em rl logs.
             getItem ''userId'' (storage s) = Some uid \<and> uid \<noteq> []
             \<and> getItem ''email'' (storage s) = Some em \<and> em \<noteq> []
             \<and> getItem ''userRole'' (storage s) = Some rl \<and> rl \<noteq> []
             \<and> existingLogs (storage s) = Inr logs \<longrightarrow>
             userLogs (clearAuth ls') =
               Some (Array_text (slice (- 100) (updatedLogs e uid em rl ''logout'' None logs)))"
    using a by (auto simp: truthy_def userLogs_clearAuth logUserActivity_readable)
  have f: "\<not> ?c \<longrightarrow> userLogs (clearAuth ls') = userLogs (storage s)"
    using a by (auto simp: userLogs_clearAuth)
  from a b c d f show ?thesis
    by (intro exI [of _ ls']) (simp add: getItem_clearAuth)
qed

text \<open>Logout with a full session and one open login of its user; logout with no stored email.\<close>

theorem logout_event_witness:
  "handleLogout env0 (initialState sessionStorage) =
     Inr \<lparr> storage = \<lparr> items = Map.empty,
                        userLogs = Some (Array_text
                          [openEntry\<lparr>logoutTime := Some (updateISO env0), action := ''logout''\<rparr>]) \<rparr>,
            user = None, loading = True \<rparr>
   \<and> handleLogout env0 (initialState tokenOnlyStorage) =
     Inr \<lparr> storage = \<lparr> items = Map.empty, userLogs = Some (Array_text [openEntry]) \<rparr>,
            user = None, loading = True \<rparr>"
proof -
  have st1: "storage (initialState sessionStorage) = sessionStorage"
    and st2: "storage (initialState tokenOnlyStorage) = tokenOnlyStorage"
    by (simp_all add: initialState_def Let_def)
  have g1: "getItem ''userId'' sessionStorage = Some ''u1''"
           "getItem ''email'' sessionStorage = Some ''a@x.com''"
           "getItem ''userRole'' sessionStorage = Some ''user''"
    by (simp_all add: getItem_def sessionStorage_def)
  have g2: "getItem ''email'' tokenOnlyStorage = None"
    by (simp add: getItem_def tokenOnlyStorage_def)
  have ex1: "existingLogs sessionStorage = Inr [openEntry]"
    by (simp add: existingLogs_def sessionStorage_def JSON_parse_def)
  have up: "slice (- 100) (updatedLogs env0 ''u1'' ''a@x.com'' ''user'' ''logout'' None [openEntry])
              = [openEntry\<lparr>logoutTime := Some (updateISO env0), action := ''logout''\<rparr>]"
    by (simp add: updatedLogs_def openLogin_def openEntry_def newLog_def slice_last)
  from logout_event [of "initialState sessionStorage" env0 None]
  obtain ls1 where
    h1: "handleLogout env0 (initialState sessionStorage) =
           Inr ((initialState sessionStorage)\<lparr>storage := clearAuth ls1, user := None\<rparr>)"
    and i1: "logUserActivity env0 ''u1'' ''a@x.com'' ''user'' ''logout'' None sessionStorage = Inr ls1"
    and l1: "userLogs (clearAuth ls1) =
               Some (Array_text [openEntry\<lparr>logoutTime := Some (updateISO env0), action := ''logout''\<rparr>])"
    by (auto simp: st1 g1 ex1 up truthy_def)
  have it1: "items (clearAuth ls1) = Map.empty"
    using logUserActivity_items [OF i1]
    by (simp add: clearAuth_def removeItem_def sessionStorage_def)
  have a: "handleLogout env0 (initialState sessionStorage) =
     Inr \<lparr> storage = \<lparr> items = Map.empty,
                        userLogs = Some (Array_text
                          [openEntry\<lparr>logoutTime := Some (updateISO env0), action := ''logout''\<rparr>]) \<rparr>,
            user = None, loading = True \<rparr>"
    using h1 l1 it1 by (simp add: initialState_def Let_def)
  from logout_event [of "initialState tokenOnlyStorage" env0 None]
  have b: "handleLogout env0 (initialState tokenOnlyStorage) =
     Inr \<lparr> storage = \<lparr> items = Map.empty, userLogs = Some (Array_text [openEntry]) \<rparr>,
            user = None, loading = True \<rparr>"
    by (simp add: st2 g2 truthy_def)
       (simp add: initialState_def Let_def clearAuth_def removeItem_def tokenOnlyStorage_def)
  from a b show ?thesis by simp
qed

text \<open>
  Claim C10. After \<open>handleLogout\<close>, \<open>hasRole\<close> is false for every string, \<open>isAdmin\<close> is
  false, the user is \<open>null\<close> and \<open>isAuthenticated\<close> is false.
\<close>

theorem no_role_after_logout:
  "\<exists>s'. handleLogout e s = Inr s' \<and> (\<forall>r. \<not> hasRole (Some r) s') \<and> \<not> isAdmin s'
        \<and> user s' = None \<and> \<not> isAuthenticated s'"
proof -
  from handleLogout_cleared [of e s] obtain s' where
    "handleLogout e s = Inr s'" "user s' = None" "getItem ''userRole'' (storage s') = None"
    by blast
  then show ?thesis
    by (intro exI [of _ s']) (simp add: hasRole_def isAdmin_def isAuthenticated_def)
qed

text \<open>A session of role \<open>user\<close> before and after logout.\<close>

theorem no_role_after_logout_witness:
  "hasRole (Some ''user'') (initialState sessionStorage)
   \<and> isAuthenticated (initialState sessionStorage)
   \<and> (\<exists>s'. handleLogout env0 (initialState sessionStorage) = Inr s'
         \<and> \<not> hasRole (Some ''user'') s' \<and> \<not> hasRole (Some ''admin'') s'
         \<and> \<not> isAuthenticated s')"
proof -
  have "hasRole (Some ''user'') (initialState sessionStorage)
          \<and> isAuthenticated (initialState sessionStorage)"
    by (simp add: hasRole_def isAuthenticated_def initialState_def Let_def getItem_def
          sessionStorage_def truthy_def)
  with no_role_after_logout [of env0 "initialState sessionStorage"] show ?thesis
    by (auto simp: isAdmin_def)
qed


section \<open>The check at mount\<close>

lemma checkAuth_try_inconsistent:
  assumes "truthy (getItem ''token'' (storage s))" and "\<not> truthy (getItem ''email'' (storage s))"
  shows "checkAuth_try e s = Inr (s\<lparr>storage := clearAuth (storage s), user := None\<rparr>)"
proof -
  from handleLogout_eq [of s e] assms(2)
  have "handleLogout e s = Inr (s\<lparr>storage := clearAuth (storage s), user := None\<rparr>)" by auto
  with assms show ?thesis by (simp add: checkAuth_try_def)
qed

lemma checkAuth_try_returns: "\<exists>s'. checkAuth_try e s = Inr s'"
  using handleLogout_cleared [of e s] by (auto simp: checkAuth_try_def Let_def)

text \<open>
  Claim C4. \<open>checkAuth\<close> on a state whose stored token is a non-empty string and whose
  stored email is missing (or empty) returns the state with the four session keys removed,
  no user and \<open>loading = false\<close>; so does the mount of the component on such a store, whose
  initial user is already \<open>null\<close>. \<open>checkAuth\<close> returns normally from every state. When the
  body of its \<open>try\<close> raises, whatever the error and the state, \<open>checkAuth\<close> (the \<open>catch\<close> and
  the \<open>finally\<close> applied to that outcome) still returns normally: it has run \<open>handleLogout\<close>,
  so the four keys are removed, the logout event is logged exactly when user id, email and
  role were all stored, there is no user, and \<open>loading\<close> is \<open>false\<close>.
\<close>

theorem restore_inconsistent:
  "(truthy (getItem ''token'' (storage s)) \<and> \<not> truthy (getItem ''email'' (storage s)) \<longrightarrow>
      checkAuth e s = Inr (s\<lparr>storage := clearAuth (storage s), user := None, loading := False\<rparr>))
   \<and> (truthy (getItem ''token'' ls) \<and> \<not> truthy (getItem ''email'' ls) \<longrightarrow>
      user (initialState ls) = None
      \<and> checkAuth e (initialState ls) = Inr \<lparr>storage = clearAuth ls, user = None, loading = False\<rparr>)
   \<and> getItem ''token'' (clearAuth ls) = None \<and> getItem ''userRole'' (clearAuth ls) = None
   \<and> getItem ''userId'' (clearAuth ls) = None \<and> getItem ''email'' (clearAuth ls) = None
   \<and> (\<exists>s'. checkAuth e s = Inr s' \<and> loading s' = False)
   \<and> (\<exists>s'. checkAuth_catch e err s = Inr s' \<and> user s' = None
         \<and> getItem ''token'' (storage s') = None \<and> getItem ''userRole'' (storage s') = None
         \<and> getItem ''userId'' (storage s') = None \<and> getItem ''email'' (storage s') = None)
   \<and> checkAuth e s = checkAuth_finish e s (checkAuth_try e s)
   \<and> (\<exists>ls'. (if truthy (getItem ''userId'' (storage s)) \<and> truthy (getItem ''email'' (storage s))
                 \<and> truthy (getItem ''userRole'' (storage s))
              then logUserActivity e (the (getItem ''userId'' (storage s)))
                     (the (getItem ''email'' (storage s))) (the (getItem ''userRole'' (storage s)))
                     ''logout'' None (storage s) = Inr ls'
              else ls' = storage s)
         \<and> checkAuth_finish e s (Inl err) =
             Inr (s\<lparr>storage := clearAuth ls', user := None, loading := False\<rparr>)
         \<and> getItem ''token'' (clearAuth ls') = None \<and> getItem ''userRole'' (clearAuth ls') = None
         \<and> getItem ''userId'' (clearAuth ls') = None \<and> getItem ''email'' (clearAuth ls') = None)
   \<and> (\<exists>s'. checkAuth_finish e s (Inl err) = Inr s' \<and> user s' = None \<and> \<not> isAuthenticated s'
         \<and> loading s' = False
         \<and> getItem ''token'' (storage s') = None \<and> getItem ''userRole'' (storage s') = None
         \<and> getItem ''userId'' (storage s') = None \<and> getItem ''email'' (storage s') = None)"
proof (intro conjI impI)
  assume "truthy (getItem ''token'' (storage s)) \<and> \<not> truthy (getItem ''email'' (storage s))"
  then show "checkAuth e s = Inr (s\<lparr>storage := clearAuth (storage s), user := None, loading := False\<rparr>)"
    by (simp add: checkAuth_def checkAuth_finish_def checkAuth_try_inconsistent)
next
  assume h: "truthy (getItem ''token'' ls) \<and> \<not> truthy (getItem ''email'' ls)"
  then show "user (initialState ls) = None" by (simp add: initialState_def Let_def)
  have st: "storage (initialState ls) = ls" by (simp add: initialState_def Let_def)
  from h show "checkAuth e (initialState ls) = Inr \<lparr>storage = clearAuth ls, user = None, loading = False\<rparr>"
    by (simp add: checkAuth_def checkAuth_finish_def checkAuth_try_inconsistent st)
next
  from checkAuth_try_returns [of e s] obtain s1 where "checkAuth_try e s = Inr s1" by blast
  then show "\<exists>s'. checkAuth e s = Inr s' \<and> loading s' = False"
    by (simp add: checkAuth_def checkAuth_finish_def)
next
  show "\<exists>s'. checkAuth_catch e err s = Inr s' \<and> user s' = None
         \<and> getItem ''token'' (storage s') = None \<and> getItem ''userRole'' (storage s') = None
         \<and> getItem ''userId'' (storage s') = None \<and> getItem ''email'' (storage s') = None"
    using handleLogout_cleared [of e s] by (auto simp: checkAuth_catch_def)
next
  show "checkAuth e s = checkAuth_finish e s (checkAuth_try e s)" by (simp add: checkAuth_def)
next
  from handleLogout_eq [of s e] obtain ls' where
    a: "(if truthy (getItem ''userId'' (storage s)) \<and> truthy (getItem ''email'' (storage s))
             \<and> truthy (getItem ''userRole'' (storage s))
          then logUserActivity e (the (getItem ''userId'' (storage s)))
                 (the (getItem ''email'' (storage s))) (the (getItem ''userRole'' (storage s)))
                 ''logout'' None (storage s) = Inr ls'
          else ls' = storage s)"
    and b: "handleLogout e s = Inr (s\<lparr>storage := clearAuth ls', user := None\<rparr>)"
    by blast
  from b have "checkAuth_finish e s (Inl err) =
                 Inr (s\<lparr>storage := clearAuth ls', user := None, loading := False\<rparr>)"
    by (simp add: checkAuth_finish_def checkAuth_catch_def)
  with a show "\<exists>ls'. (if truthy (getItem ''userId'' (storage s)) \<and> truthy (getItem ''email'' (storage s))
                 \<and> truthy (getItem ''userRole'' (storage s))
              then logUserActivity e (the (getItem ''userId'' (storage s)))
                     (the (getItem ''email'' (storage s))) (the (getItem ''userRole'' (storage s)))
                     ''logout'' None (storage s) = Inr ls'
              else ls' = storage s)
         \<and> checkAuth_finish e s (Inl err) =
             Inr (s\<lparr>storage := clearAuth ls', user := None, loading := False\<rparr>)
         \<and> getItem ''token'' (clearAuth ls') = None \<and> getItem ''userRole'' (clearAuth ls') = None
         \<and> getItem ''userId'' (clearAuth ls') = None \<and> getItem ''email'' (clearAuth ls') = None"
    by (intro exI [of _ ls']) (simp add: getItem_clearAuth)
next
  from handleLogout_cleared [of e s] obtain s1 where
    "handleLogout e s = Inr s1" "user s1 = None"
    "getItem ''token'' (storage s1) = None" "getItem ''userRole'' (storage s1) = None"
    "getItem ''userId'' (storage s1) = None" "getItem ''email'' (storage s1) = None"
    by blast
  then show "\<exists>s'. checkAuth_finish e s (Inl err) = Inr s' \<and> user s' = None \<and> \<not> isAuthenticated s'
         \<and> loading s' = False
         \<and> getItem ''token'' (storage s') = None \<and> getItem ''userRole'' (storage s') = None
         \<and> getItem ''userId'' (storage s') = None \<and> getItem ''email'' (storage s') = None"
    by (intro exI [of _ "s1\<lparr>loading := False\<rparr>"])
       (simp add: checkAuth_finish_def checkAuth_catch_def isAuthenticated_def)
qed (simp_all add: getItem_clearAuth)

text \<open>The mount on a store with a token and no email; and the body raising \<open>TypeError\<close> in a
  state with a full session of \<open>u1\<close>, a user in memory and one open login of \<open>u1\<close> in the log.\<close>

theorem restore_inconsistent_witness:
  "truthy (getItem ''token'' tokenOnlyStorage) \<and> \<not> truthy (getItem ''email'' tokenOnlyStorage)
   \<and> checkAuth env0 (initialState tokenOnlyStorage) =
       Inr \<lparr> storage = \<lparr> items = Map.empty, userLogs = Some (Array_text [openEntry]) \<rparr>,
              user = None, loading = False \<rparr>
   \<and> isAuthenticated (initialState sessionStorage)
   \<and> checkAuth_finish env0 (initialState sessionStorage) (Inl TypeError) =
       Inr \<lparr> storage = \<lparr> items = Map.empty,
                          userLogs = Some (Array_text
                            [openEntry\<lparr>logoutTime := Some (updateISO env0), action := ''logout''\<rparr>]) \<rparr>,
              user = None, loading = False \<rparr>"
proof -
  have h: "truthy (getItem ''token'' tokenOnlyStorage) \<and> \<not> truthy (getItem ''email'' tokenOnlyStorage)"
    by (simp add: truthy_def getItem_def tokenOnlyStorage_def)
  have cl: "clearAuth tokenOnlyStorage = \<lparr> items = Map.empty, userLogs = Some (Array_text [openEntry]) \<rparr>"
    by (simp add: clearAuth_def removeItem_def tokenOnlyStorage_def)
  from restore_inconsistent [where s = "initialState tokenOnlyStorage" and ls = tokenOnlyStorage
      and e = env0 and err = SyntaxError] h
  have a: "checkAuth env0 (initialState tokenOnlyStorage) =
       Inr \<lparr> storage = \<lparr> items = Map.empty, userLogs = Some (Array_text [openEntry]) \<rparr>,
              user = None, loading = False \<rparr>"
    by (simp add: cl)
  have st: "storage (initialState sessionStorage) = sessionStorage"
    by (simp add: initialState_def Let_def)
  have g: "getItem ''userId'' sessionStorage = Some ''u1''"
          "getItem ''email'' sessionStorage = Some ''a@x.com''"
          "getItem ''userRole'' sessionStorage = Some ''user''"
          "getItem ''token'' sessionStorage = Some ''t0k3n''"
    by (simp_all add: getItem_def sessionStorage_def)
  have au: "isAuthenticated (initialState sessionStorage)"
    by (simp add: isAuthenticated_def initialState_def Let_def g truthy_def)
  have ex: "existingLogs sessionStorage = Inr [openEntry]"
    by (simp add: existingLogs_def sessionStorage_def JSON_parse_def)
  have up: "slice (- 100) (updatedLogs env0 ''u1'' ''a@x.com'' ''user'' ''logout'' None [openEntry])
              = [openEntry\<lparr>logoutTime := Some (updateISO env0), action := ''logout''\<rparr>]"
    by (simp add: updatedLogs_def openLogin_def openEntry_def newLog_def slice_last)
  from restore_inconsistent [where s = "initialState sessionStorage" and ls = tokenOnlyStorage
      and e = env0 and err = TypeError]
  obtain ls1 where
    i1: "logUserActivity env0 ''u1'' ''a@x.com'' ''user'' ''logout'' None sessionStorage = Inr ls1"
    and f1: "checkAuth_finish env0 (initialState sessionStorage) (Inl TypeError) =
           Inr ((initialState sessionStorage)\<lparr>storage := clearAuth ls1, user := None,
                  loading := False\<rparr>)"
    by (auto simp: st g truthy_def)
  have l1: "userLogs (clearAuth ls1) =
              Some (Array_text [openEntry\<lparr>logoutTime := Some (updateISO env0), action := ''logout''\<rparr>])"
    using i1 by (simp add: logUserActivity_readable [OF ex] up userLogs_clearAuth)
       (auto simp: userLogs_clearAuth)
  have it1: "items (clearAuth ls1) = Map.empty"
    using logUserActivity_items [OF i1]
    by (simp add: clearAuth_def removeItem_def sessionStorage_def)
  have b: "checkAuth_finish env0 (initialState sessionStorage) (Inl TypeError) =
       Inr \<lparr> storage = \<lparr> items = Map.empty,
                          userLogs = Some (Array_text
                            [openEntry\<lparr>logoutTime := Some (updateISO env0), action := ''logout''\<rparr>]) \<rparr>,
              user = None, loading = False \<rparr>"
    using f1 l1 it1 by (simp add: initialState_def Let_def)
  from h a au b show ?thesis by simp
qed

section \<open>Roles\<close>

text \<open>
  Claim C5. \<open>hasRole(requiredRole)\<close> for a string \<open>requiredRole\<close> is true exactly when the
  store holds that very string under \<open>userRole\<close>; \<open>isAdmin\<close> is true exactly when it holds
  \<open>admin\<close>. Nothing is normalised: \<open>Admin\<close> and \<open>admin\<close> followed by a space are not
  \<open>admin\<close>; with the key removed no string matches.
\<close>

theorem hasRole_exact:
  "hasRole (Some requiredRole) s = (items (storage s) ''userRole'' = Some requiredRole)
   \<and> isAdmin s = (items (storage s) ''userRole'' = Some ''admin'')
   \<and> hasRole (Some requiredRole) (s\<lparr>storage := setItem ''userRole'' v (storage s)\<rparr>)
       = (v = requiredRole)
   \<and> \<not> isAdmin (s\<lparr>storage := setItem ''userRole'' ''Admin'' (storage s)\<rparr>)
   \<and> \<not> isAdmin (s\<lparr>storage := setItem ''userRole'' ''admin '' (storage s)\<rparr>)
   \<and> isAdmin (s\<lparr>storage := setItem ''userRole'' ''admin'' (storage s)\<rparr>)
   \<and> \<not> hasRole (Some requiredRole) (s\<lparr>storage := removeItem ''userRole'' (storage s)\<rparr>)"
  by (simp add: hasRole_def isAdmin_def getItem_def setItem_def removeItem_def)

text \<open>The stored role \<open>user\<close> against \<open>user\<close>, \<open>User\<close> and \<open>admin\<close>.\<close>

theorem hasRole_exact_witness:
  "hasRole (Some ''user'') (initialState sessionStorage)
   \<and> \<not> hasRole (Some ''User'') (initialState sessionStorage)
   \<and> \<not> isAdmin (initialState sessionStorage)"
  using hasRole_exact [of "''user''" "initialState sessionStorage"]
        hasRole_exact [of "''User''" "initialState sessionStorage"]
  by (simp add: initialState_def Let_def sessionStorage_def)

section \<open>Login\<close>

lemma includes_str_sublist: "includes_str s sub = sublist sub s"
  by (induction s) (simp_all add: sublist_Cons_right)

lemma includes_str_iff: "includes_str s sub \<longleftrightarrow> (\<exists>p q. s = p @ sub @ q)"
  by (simp add: includes_str_sublist sublist_def)

text \<open>
  Claim C6. \<open>login(email, password)\<close> returns \<open>{email, userId, role}\<close> where \<open>role\<close> is
  \<open>admin\<close> when \<open>email\<close> contains \<open>admin\<close> and \<open>user\<close> otherwise, and \<open>userId\<close> is the role,
  a hyphen and the decimal text of \<open>Date.now()\<close>; the store then holds the token, the role,
  the user id and the email, the user in memory is the returned object, and
  \<open>logUserActivity\<close> has been called with action \<open>login\<close> and the first 20 characters of the
  token followed by three dots (on a readable log the new entry is written at its end). The
  result does not depend on the password.
\<close>

theorem login_session:
  "\<exists>rl uid ls'.
      rl = (if \<exists>p q. email = p @ ''admin'' @ q then ''admin'' else ''user'')
    \<and> uid = rl @ ''-'' @ string_of_nat (nowMs e)
    \<and> login e email password s =
        Inr (\<lparr>user_email = email, user_userId = Some uid, user_role = Some rl\<rparr>,
             s\<lparr>storage := ls',
               user := Some \<lparr>user_email = email, user_userId = Some uid, user_role = Some rl\<rparr>\<rparr>)
    \<and> getItem ''token'' ls' = Some (mockToken e) \<and> getItem ''userRole'' ls' = Some rl
    \<and> getItem ''userId'' ls' = Some uid \<and> getItem ''email'' ls' = Some email
    \<and> logUserActivity e uid email rl ''login'' (Some (take 20 (mockToken e) @ ''...''))
         (setItem ''email'' email (setItem ''userId'' uid (setItem ''userRole'' rl
            (setItem ''token'' (mockToken e) (storage s))))) = Inr ls'
    \<and> (\<forall>logs. existingLogs (storage s) = Inr logs \<longrightarrow>
          userLogs ls' = Some (Array_text (drop (length logs - 99) logs @
            [newLog e uid email rl ''login'' (Some (take 20 (mockToken e) @ ''...''))])))
    \<and> login e email password' s = login e email password s"
proof -
  let ?rl = "if includes_str email ''admin'' then ''admin'' else ''user''"
  let ?uid = "?rl @ ''-'' @ string_of_nat (nowMs e)"
  let ?ls4 = "setItem ''email'' email (setItem ''userId'' ?uid (setItem ''userRole'' ?rl
            (setItem ''token'' (mockToken e) (storage s))))"
  let ?tok = "Some (take 20 (mockToken e) @ ''...'')"
  let ?u = "\<lparr>user_email = email, user_userId = Some ?uid, user_role = Some ?rl\<rparr>"
  obtain ls' where ev: "logUserActivity e ?uid email ?rl ''login'' ?tok ?ls4 = Inr ls'"
    using logUserActivity_returns by blast
  have uid: "(if includes_str email ''admin'' then ''admin-'' @ string_of_nat (nowMs e)
              else ''user-'' @ string_of_nat (nowMs e)) = ?uid" by simp
  have lg: "\<And>pw. login e email pw s = Inr (?u, s\<lparr>storage := ls', user := Some ?u\<rparr>)"
    unfolding login_def login_try_def Let_def uid substring_def using ev by simp
  have it: "items ls' = items ?ls4" using logUserActivity_items [OF ev] .
  have keys: "getItem ''token'' ls' = Some (mockToken e) \<and> getItem ''userRole'' ls' = Some ?rl
    \<and> getItem ''userId'' ls' = Some ?uid \<and> getItem ''email'' ls' = Some email"
    by (simp add: getItem_def it setItem_def)
  have ex: "existingLogs ?ls4 = existingLogs (storage s)"
    by (simp add: existingLogs_def setItem_def)
  have logs: "\<forall>logs. existingLogs (storage s) = Inr logs \<longrightarrow>
          userLogs ls' = Some (Array_text (drop (length logs - 99) logs @
            [newLog e ?uid email ?rl ''login'' ?tok]))"
  proof (intro allI impI)
    fix logs assume "existingLogs (storage s) = Inr logs"
    then have "existingLogs ?ls4 = Inr logs" by (simp only: ex)
    from logUserActivity_readable [OF this, of e ?uid email ?rl "''login''" ?tok] ev
    show "userLogs ls' = Some (Array_text (drop (length logs - 99) logs @
            [newLog e ?uid email ?rl ''login'' ?tok]))"
      by (auto simp: updatedLogs_login slice_last_snoc)
  qed
  have rl: "?rl = (if \<exists>p q. email = p @ ''admin'' @ q then ''admin'' else ''user'')"
    by (simp add: includes_str_iff)
  show ?thesis
    apply (rule exI [of _ ?rl], rule exI [of _ ?uid], rule exI [of _ ls'])
    using rl lg keys ev logs by simp
qed


lemma string_of_nowMs: "string_of_nat (nowMs env0) = ''1700000000000''"
  by (simp add: env0_def string_of_nat.simps)

lemma label0: "take 20 (mockToken env0) @ ''...'' = ''eyJhbGciOiJIUzI1NiIs...''"
  by (simp add: env0_def)

text \<open>Logins of \<open>admin@x.com\<close> and of \<open>bob@x.com\<close> on the store with no key.\<close>

theorem login_session_witness:
  "(\<exists>st. login env0 ''admin@x.com'' ''secret'' (initialState emptyStorage) =
       Inr (\<lparr>user_email = ''admin@x.com'', user_userId = Some ''admin-1700000000000'',
              user_role = Some ''admin''\<rparr>, st)
     \<and> getItem ''userRole'' (storage st) = Some ''admin''
     \<and> userLogs (storage st) = Some (Array_text
          [newLog env0 ''admin-1700000000000'' ''admin@x.com'' ''admin'' ''login''
             (Some ''eyJhbGciOiJIUzI1NiIs...'')]))
   \<and> (\<exists>st. login env0 ''bob@x.com'' ''secret'' (initialState emptyStorage) =
       Inr (\<lparr>user_email = ''bob@x.com'', user_userId = Some ''user-1700000000000'',
              user_role = Some ''user''\<rparr>, st)
     \<and> getItem ''userRole'' (storage st) = Some ''user'')"
proof -
  have st: "storage (initialState emptyStorage) = emptyStorage"
    by (simp add: initialState_def Let_def)
  have inc1: "\<exists>p q. ''admin@x.com'' = p @ ''admin'' @ q"
    unfolding includes_str_iff [symmetric] by simp
  have inc2: "\<not> (\<exists>p q. ''bob@x.com'' = p @ ''admin'' @ q)"
    unfolding includes_str_iff [symmetric] by simp
  from login_session [of "''admin@x.com''" env0 "''secret''" "initialState emptyStorage" "''secret''"]
  have a: "\<exists>st. login env0 ''admin@x.com'' ''secret'' (initialState emptyStorage) =
       Inr (\<lparr>user_email = ''admin@x.com'', user_userId = Some ''admin-1700000000000'',
              user_role = Some ''admin''\<rparr>, st)
     \<and> getItem ''userRole'' (storage st) = Some ''admin''
     \<and> userLogs (storage st) = Some (Array_text
          [newLog env0 ''admin-1700000000000'' ''admin@x.com'' ''admin'' ''login''
             (Some ''eyJhbGciOiJIUzI1NiIs...'')])"
    unfolding st by (simp only: inc1 if_True string_of_nowMs label0)
       (auto simp: existingLogs_emptyStorage)
  from login_session [of "''bob@x.com''" env0 "''secret''" "initialState emptyStorage" "''secret''"]
  have b: "\<exists>st. login env0 ''bob@x.com'' ''secret'' (initialState emptyStorage) =
       Inr (\<lparr>user_email = ''bob@x.com'', user_userId = Some ''user-1700000000000'',
              user_role = Some ''user''\<rparr>, st)
     \<and> getItem ''userRole'' (storage st) = Some ''user''"
    unfolding st by (simp only: inc2 if_False string_of_nowMs label0) auto
  from a b show ?thesis by blast
qed


end
